theory Spec2Isabelle
  imports Main "HOL-Library.Word" "HOL-Library.Multiset" "HOL-Library.Sublist"
begin

section \<open>The interface enumerator of osmosis-discover-js\<close>

text \<open>
  A shallow embedding of \<^verbatim>\<open>src/osmosis-discover-js/src/listInterfaces.cpp\<close>: the native
  function \<^verbatim>\<open>ListInterfaces\<close>, which asks the operating system for its interface
  addresses (\<^verbatim>\<open>getifaddrs\<close>), walks the linked list it gets and builds a JavaScript array
  with one object per IPv4 entry.

  The operating system and the JavaScript engine are outside the file. What they hand to
  the function is an argument of the model (the reply of \<^verbatim>\<open>getifaddrs\<close>); what the
  function does to them is part of its result (the array it returns, the exceptions it
  throws, the calls of \<^verbatim>\<open>freeifaddrs\<close>). An execution that dereferences a null pointer or
  reads a variable that was never written has no defined result in C++; the model returns
  \<open>Undefined\<close> for it.
\<close>

subsection \<open>Data of the operating system\<close>

text \<open>
  \<^verbatim>\<open>struct in_addr\<close>: the four bytes of an IPv4 address as they lie in memory, which is
  network order, first octet first.
\<close>

datatype in_addr = In_addr "8 word" "8 word" "8 word" "8 word"

text \<open>
  A socket address as the function looks at it: the family through \<^verbatim>\<open>struct sockaddr\<close>
  (\<^verbatim>\<open>sa_family\<close>), the four address bytes through the cast to \<^verbatim>\<open>struct sockaddr_in\<close>
  (\<^verbatim>\<open>sin_addr\<close>). The cast reads these bytes whatever the family is.
\<close>

record sockaddr =
  sa_family :: "16 word"
  sin_addr :: in_addr

text \<open>
  \<^verbatim>\<open>struct ifaddrs\<close>. The two address fields are pointers, and a pointer may be null
  (\<open>None\<close>). The \<^verbatim>\<open>ifa_next\<close> link is the tail of a HOL list, the null pointer the
  empty list.
\<close>

record ifaddrs =
  ifa_name :: string
  ifa_flags :: "32 word"
  ifa_addr :: "sockaddr option"
  ifa_broadaddr :: "sockaddr option"

definition AF_INET :: "16 word" where
  "AF_INET = 2"

definition INET_ADDRSTRLEN :: nat where
  "INET_ADDRSTRLEN = 16"

text \<open>
  The local variable \<^verbatim>\<open>struct ifaddrs *interfaces\<close> is declared without an initialiser:
  until something is stored in it, it holds no value that may be read.
\<close>

datatype ifaddrs_ptr = Uninitialised | Pointer "ifaddrs list"

text \<open>
  What a call of \<^verbatim>\<open>getifaddrs\<close> can do. On success it returns 0 and stores the head of the
  list. On failure it returns -1; some C libraries have stored a null pointer by then,
  others return without storing anything.
\<close>

datatype os_reply = Success "ifaddrs list" | Failure_null | Failure_untouched

fun getifaddrs :: "os_reply \<Rightarrow> ifaddrs_ptr \<Rightarrow> int \<times> ifaddrs_ptr" where
  "getifaddrs (Success es) ifap = (0, Pointer es)"
| "getifaddrs Failure_null ifap = (- 1, Pointer [])"
| "getifaddrs Failure_untouched ifap = (- 1, ifap)"

subsection \<open>Binary to text: \<^verbatim>\<open>inet_ntop\<close>\<close>

text \<open>
  Modelled from the spec: the binary-to-text conversion of the operating system
  (\<^verbatim>\<open>inet_ntop\<close> of the C library, called with \<^verbatim>\<open>AF_INET\<close>), which is not part of the
  repository. It writes the four octets in decimal, without leading zeros, separated by
  periods, into the caller's buffer when the text and its terminating zero fit into
  \<open>len\<close> bytes; otherwise it leaves the buffer as it was. The function under
  verification ignores its return value.
\<close>

definition digit :: "nat \<Rightarrow> char" where
  "digit d = char_of (48 + d)"

definition decimal :: "nat \<Rightarrow> string" where
  "decimal n =
     (if n < 10 then [digit n]
      else if n < 100 then [digit (n div 10), digit (n mod 10)]
      else [digit (n div 100), digit (n div 10 mod 10), digit (n mod 10)])"

fun dotted_decimal :: "in_addr \<Rightarrow> string" where
  "dotted_decimal (In_addr a b c d) =
     decimal (unat a) @ ''.'' @ decimal (unat b) @ ''.'' @ decimal (unat c) @ ''.'' @
     decimal (unat d)"

definition inet_ntop4 :: "in_addr \<Rightarrow> string option \<Rightarrow> nat \<Rightarrow> string option" where
  "inet_ntop4 src dst len =
     (if length (dotted_decimal src) < len then Some (dotted_decimal src) else dst)"

subsection \<open>Values of the JavaScript engine\<close>

text \<open>
  A JavaScript object with string values: its properties in insertion order. Setting a
  property that exists replaces its value in place, setting a new one appends it.
  An array is the list of its elements; an index that was never assigned is a hole
  (\<open>None\<close>). Assigning beyond the end extends the array, as JavaScript does.
\<close>

type_synonym js_object = "(string \<times> string) list"

type_synonym js_array = "js_object option list"

definition Object_New :: js_object where
  "Object_New = []"

definition Array_New :: js_array where
  "Array_New = []"

fun obj_Set :: "string \<Rightarrow> string \<Rightarrow> js_object \<Rightarrow> js_object" where
  "obj_Set k v [] = [(k, v)]"
| "obj_Set k v (p # ps) = (if fst p = k then (k, v) # ps else p # obj_Set k v ps)"

definition array_set :: "js_array \<Rightarrow> nat \<Rightarrow> js_object \<Rightarrow> js_array" where
  "array_set out i obj =
     (if i < length out then out[i := Some obj]
      else out @ replicate (i - length out) None @ [Some obj])"

text \<open>
  \<^verbatim>\<open>Napi::String::New(env, const char*)\<close> makes a JavaScript string of a C string: it
  takes the bytes up to the first zero byte and decodes them as UTF-8, and the engine puts
  the replacement character U+FFFD in the place of every part that is not well-formed
  UTF-8 (one for an ill-formed lead byte, one for a sequence that breaks off, after which
  decoding goes on with the byte that broke it). A JavaScript string is written here as
  the UTF-8 bytes of its characters, so a well-formed text stands for itself and U+FFFD
  is the three bytes \<open>EF BF BD\<close>.
\<close>

definition byte_in :: "nat \<Rightarrow> nat \<Rightarrow> char \<Rightarrow> bool" where
  "byte_in lo hi c = (lo \<le> (of_char c :: nat) \<and> (of_char c :: nat) \<le> hi)"

definition U_FFFD :: string where
  "U_FFFD = [CHR 0xEF, CHR 0xBF, CHR 0xBD]"

text \<open>The second byte that may follow the lead byte of a sequence of three or four.\<close>

definition second_lo :: "char \<Rightarrow> nat" where
  "second_lo b = (if b = CHR 0xE0 then 0xA0 else if b = CHR 0xF0 then 0x90 else 0x80)"

definition second_hi :: "char \<Rightarrow> nat" where
  "second_hi b = (if b = CHR 0xED then 0x9F else if b = CHR 0xF4 then 0x8F else 0xBF)"

fun utf8_replace :: "string \<Rightarrow> string" where
  "utf8_replace [] = []"
| "utf8_replace (b # bs) =
     (if byte_in 0x00 0x7F b then b # utf8_replace bs
      else if byte_in 0xC2 0xDF b then
        (case bs of
           [] \<Rightarrow> U_FFFD
         | c # cs \<Rightarrow>
             if byte_in 0x80 0xBF c then b # c # utf8_replace cs
             else U_FFFD @ utf8_replace bs)
      else if byte_in 0xE0 0xEF b then
        (case bs of
           [] \<Rightarrow> U_FFFD
         | c # cs \<Rightarrow>
             if \<not> byte_in (second_lo b) (second_hi b) c then U_FFFD @ utf8_replace bs
             else
               (case cs of
                  [] \<Rightarrow> U_FFFD
                | d # ds \<Rightarrow>
                    if byte_in 0x80 0xBF d then b # c # d # utf8_replace ds
                    else U_FFFD @ utf8_replace cs))
      else if byte_in 0xF0 0xF4 b then
        (case bs of
           [] \<Rightarrow> U_FFFD
         | c # cs \<Rightarrow>
             if \<not> byte_in (second_lo b) (second_hi b) c then U_FFFD @ utf8_replace bs
             else
               (case cs of
                  [] \<Rightarrow> U_FFFD
                | d # ds \<Rightarrow>
                    if \<not> byte_in 0x80 0xBF d then U_FFFD @ utf8_replace cs
                    else
                      (case ds of
                         [] \<Rightarrow> U_FFFD
                       | e # es \<Rightarrow>
                           if byte_in 0x80 0xBF e then b # c # d # e # utf8_replace es
                           else U_FFFD @ utf8_replace ds)))
      else U_FFFD @ utf8_replace bs)"

definition String_New :: "string \<Rightarrow> string" where
  "String_New s = utf8_replace (takeWhile (\<lambda>c. c \<noteq> CHR 0x00) s)"

subsection \<open>The function\<close>

datatype 'a exec = Undefined | Returns 'a

text \<open>
  The test of line 18, \<^verbatim>\<open>ifa->ifa_addr->sa_family != AF_INET\<close>: it reads the family
  through the entry's address pointer, which it does not compare with null first.
\<close>

definition family_check :: "ifaddrs \<Rightarrow> bool exec" where
  "family_check ifa =
     (case ifa_addr ifa of
        None \<Rightarrow> Undefined
      | Some addr \<Rightarrow> Returns (sa_family addr \<noteq> AF_INET))"

text \<open>
  The \<^verbatim>\<open>for\<close> loop of lines 17 to 47, on the rest of the linked list, the array and
  \<^verbatim>\<open>index\<close>. The counter \<^verbatim>\<open>index\<close> is a C \<^verbatim>\<open>int\<close> that counts the records written so
  far; it is a natural number here (it would take \<open>2 ^ 31\<close> IPv4 entries to overflow it).
  The buffer \<^verbatim>\<open>ip_addr_buffer\<close> is a fresh, unwritten array in every iteration, and
  \<^verbatim>\<open>Napi::String::New\<close> reads the text that is in it. The three property names and the
  three values all go through \<^verbatim>\<open>Napi::String::New\<close>.
\<close>

fun enumerate_entries :: "ifaddrs list \<Rightarrow> js_array \<Rightarrow> nat \<Rightarrow> (js_array \<times> nat) exec" where
  "enumerate_entries [] out index = Returns (out, index)"
| "enumerate_entries (ifa # ifa_next) out index =
     (case family_check ifa of
        Undefined \<Rightarrow> Undefined
      | Returns True \<Rightarrow> enumerate_entries ifa_next out index
      | Returns False \<Rightarrow>
          (let obj = obj_Set (String_New ''name'') (String_New (ifa_name ifa)) Object_New
           in case ifa_addr ifa of
                None \<Rightarrow> Undefined
              | Some addr \<Rightarrow>
                  (let ip_addr_buffer = inet_ntop4 (sin_addr addr) None INET_ADDRSTRLEN
                   in case ip_addr_buffer of
                        None \<Rightarrow> Undefined
                      | Some address \<Rightarrow>
                          (let obj = obj_Set (String_New ''address'') (String_New address) obj
                           in case ifa_broadaddr ifa of
                                None \<Rightarrow> Undefined
                              | Some broadaddr \<Rightarrow>
                                  (let ip_addr_buffer =
                                         inet_ntop4 (sin_addr broadaddr) ip_addr_buffer
                                           INET_ADDRSTRLEN
                                   in case ip_addr_buffer of
                                        None \<Rightarrow> Undefined
                                      | Some broadcast \<Rightarrow>
                                          (let obj =
                                                 obj_Set (String_New ''broadcast'')
                                                   (String_New broadcast) obj
                                           in enumerate_entries ifa_next
                                                (array_set out index obj) (index + 1)))))))"

text \<open>
  What a call leaves behind when it returns: the array it returns, the JavaScript
  exceptions it has thrown (\<^verbatim>\<open>ThrowAsJavaScriptException\<close> makes the exception pending in
  the engine and returns to the C++ code, which goes on with the next statement), and the
  arguments of its calls of \<^verbatim>\<open>freeifaddrs\<close>.
\<close>

record call_result =
  returned :: js_array
  thrown :: "string list"
  freed :: "ifaddrs list list"

definition ListInterfaces :: "os_reply \<Rightarrow> call_result exec" where
  "ListInterfaces os =
     (let out = Array_New;
          index = 0;
          (rc, interfaces) = getifaddrs os Uninitialised;
          pending = (if rc \<noteq> 0
                     then [''Error occurred when searching for network interfaces'']
                     else [])
      in case interfaces of
           Uninitialised \<Rightarrow> Undefined
         | Pointer es \<Rightarrow>
             (case enumerate_entries es out index of
                Undefined \<Rightarrow> Undefined
              | Returns (out, index) \<Rightarrow>
                  Returns \<lparr>returned = out, thrown = pending, freed = [es]\<rparr>))"

subsection \<open>Notions used to state the properties\<close>

text \<open>An entry is an IPv4 entry when it has an address and the family of that address is
  \<^verbatim>\<open>AF_INET\<close>.\<close>

definition is_ipv4 :: "ifaddrs \<Rightarrow> bool" where
  "is_ipv4 e = (case ifa_addr e of None \<Rightarrow> False | Some a \<Rightarrow> sa_family a = AF_INET)"

text \<open>The record expected for an IPv4 entry: three properties, in the order of the
  three \<^verbatim>\<open>obj.Set\<close> calls. The name is the JavaScript string made of the entry's name.\<close>

definition record_of :: "ifaddrs \<Rightarrow> js_object" where
  "record_of e =
     [(''name'', String_New (ifa_name e)),
      (''address'', dotted_decimal (sin_addr (the (ifa_addr e)))),
      (''broadcast'', dotted_decimal (sin_addr (the (ifa_broadaddr e))))]"

text \<open>
  What the function relies on and does not check: every entry has an address, and every
  IPv4 entry has something in its broadcast slot.
\<close>

definition readable :: "ifaddrs \<Rightarrow> bool" where
  "readable e = (ifa_addr e \<noteq> None \<and> (is_ipv4 e \<longrightarrow> ifa_broadaddr e \<noteq> None))"

definition os_contract :: "ifaddrs list \<Rightarrow> bool" where
  "os_contract es = list_all readable es"

text \<open>A text of ASCII characters other than the zero byte.\<close>

definition plain :: "string \<Rightarrow> bool" where
  "plain s = list_all (byte_in 1 127) s"

text \<open>The same list of entries with other interface flags.\<close>

definition with_flags :: "(ifaddrs \<Rightarrow> 32 word) \<Rightarrow> ifaddrs list \<Rightarrow> ifaddrs list" where
  "with_flags f es = map (\<lambda>e. e\<lparr>ifa_flags := f e\<rparr>) es"

text \<open>
  Reading dotted-decimal text back, as the specification's round trip asks: four parts
  between periods, each one to three decimal digits without a leading zero and at most
  255. \<open>address_value\<close> is the 32-bit number the four bytes stand for, first octet
  most significant.
\<close>

definition digit_value :: "char \<Rightarrow> nat option" where
  "digit_value c =
     (if 48 \<le> (of_char c :: nat) \<and> (of_char c :: nat) \<le> 57 then Some (of_char c - 48)
      else None)"

fun split_dots :: "string \<Rightarrow> string list" where
  "split_dots [] = [[]]"
| "split_dots (c # cs) =
     (if c = CHR ''.'' then [] # split_dots cs
      else (case split_dots cs of [] \<Rightarrow> [[c]] | w # ws \<Rightarrow> (c # w) # ws))"

definition parse_octet :: "string \<Rightarrow> 8 word option" where
  "parse_octet s =
     (if s = [] \<or> 3 < length s \<or> (1 < length s \<and> hd s = CHR ''0'') then None
      else case those (map digit_value s) of
             None \<Rightarrow> None
           | Some ds \<Rightarrow>
               (let n = foldl (\<lambda>a d. 10 * a + d) 0 ds
                in if n < 256 then Some (of_nat n) else None))"

definition parse_dotted_decimal :: "string \<Rightarrow> in_addr option" where
  "parse_dotted_decimal s =
     (case split_dots s of
        [p, q, r, t] \<Rightarrow>
          (case (parse_octet p, parse_octet q, parse_octet r, parse_octet t) of
             (Some a, Some b, Some c, Some d) \<Rightarrow> Some (In_addr a b c d)
           | _ \<Rightarrow> None)
      | _ \<Rightarrow> None)"

fun address_value :: "in_addr \<Rightarrow> 32 word" where
  "address_value (In_addr a b c d) =
     of_nat (((unat a * 256 + unat b) * 256 + unat c) * 256 + unat d)"

definition parse_ipv4 :: "string \<Rightarrow> 32 word option" where
  "parse_ipv4 s = map_option address_value (parse_dotted_decimal s)"

text \<open>Reading a property of an object.\<close>

definition obj_Get :: "js_object \<Rightarrow> string \<Rightarrow> string option" where
  "obj_Get obj k = map_of obj k"

subsection \<open>Sample entries\<close>

text \<open>
  The loopback interface; an Ethernet interface with an IPv4 and an IPv6 entry
  (\<^verbatim>\<open>AF_INET6\<close> is 10); a point-to-point interface that is down, whose second slot holds
  the peer's address; a tunnel without any address; an IPv4 entry whose broadcast pointer
  is null; an IPv4 entry whose name has a byte (\<open>FF\<close>) that is not UTF-8.
\<close>

definition lo :: ifaddrs where
  "lo = \<lparr>ifa_name = ''lo'', ifa_flags = 73,
         ifa_addr = Some \<lparr>sa_family = 2, sin_addr = In_addr 127 0 0 1\<rparr>,
         ifa_broadaddr = Some \<lparr>sa_family = 2, sin_addr = In_addr 127 255 255 255\<rparr>\<rparr>"

definition eth0 :: ifaddrs where
  "eth0 = \<lparr>ifa_name = ''eth0'', ifa_flags = 4163,
           ifa_addr = Some \<lparr>sa_family = 2, sin_addr = In_addr 192 168 1 10\<rparr>,
           ifa_broadaddr = Some \<lparr>sa_family = 2, sin_addr = In_addr 192 168 1 255\<rparr>\<rparr>"

definition eth0_v6 :: ifaddrs where
  "eth0_v6 = \<lparr>ifa_name = ''eth0'', ifa_flags = 4163,
              ifa_addr = Some \<lparr>sa_family = 10, sin_addr = In_addr 0 0 0 0\<rparr>,
              ifa_broadaddr = None\<rparr>"

definition ppp0 :: ifaddrs where
  "ppp0 = \<lparr>ifa_name = ''ppp0'', ifa_flags = 4240,
           ifa_addr = Some \<lparr>sa_family = 2, sin_addr = In_addr 10 0 0 2\<rparr>,
           ifa_broadaddr = Some \<lparr>sa_family = 2, sin_addr = In_addr 10 0 0 1\<rparr>\<rparr>"

definition tun0 :: ifaddrs where
  "tun0 = \<lparr>ifa_name = ''tun0'', ifa_flags = 4240, ifa_addr = None, ifa_broadaddr = None\<rparr>"

definition wg0 :: ifaddrs where
  "wg0 = \<lparr>ifa_name = ''wg0'', ifa_flags = 209,
          ifa_addr = Some \<lparr>sa_family = 2, sin_addr = In_addr 10 8 0 1\<rparr>,
          ifa_broadaddr = None\<rparr>"

definition odd :: ifaddrs where
  "odd = \<lparr>ifa_name = [CHR 0x69, CHR 0x66, CHR 0xFF, CHR 0x30], ifa_flags = 4163,
          ifa_addr = Some \<lparr>sa_family = 2, sin_addr = In_addr 10 0 0 9\<rparr>,
          ifa_broadaddr = Some \<lparr>sa_family = 2, sin_addr = In_addr 10 0 0 255\<rparr>\<rparr>"

section \<open>Properties\<close>

subsection \<open>The text of an address\<close>

lemma length_decimal: "length (decimal n) \<le> 3"
  by (simp add: decimal_def)

lemma length_dotted_decimal: "length (dotted_decimal a) \<le> 15"
proof (cases a)
  case (In_addr a b c d)
  have "length (decimal (unat a)) \<le> 3" "length (decimal (unat b)) \<le> 3"
       "length (decimal (unat c)) \<le> 3" "length (decimal (unat d)) \<le> 3"
    by (rule length_decimal)+
  then show ?thesis
    using In_addr by simp
qed

text \<open>The buffer of \<^verbatim>\<open>INET_ADDRSTRLEN\<close> bytes is always large enough.\<close>

lemma inet_ntop4_fits: "inet_ntop4 src dst INET_ADDRSTRLEN = Some (dotted_decimal src)"
  using length_dotted_decimal [of src] by (simp add: inet_ntop4_def INET_ADDRSTRLEN_def)

lemma digit_value_digit: "d < 10 \<Longrightarrow> digit_value (digit d) = Some d"
  by (simp add: digit_value_def digit_def)

lemma digit_not_dot: "d < 10 \<Longrightarrow> digit d \<noteq> CHR ''.''"
proof
  assume "d < 10" and "digit d = CHR ''.''"
  then have "(of_char (digit d) :: nat) = of_char CHR ''.''" by simp
  with \<open>d < 10\<close> show False by (simp add: digit_def)
qed

lemma digit_is_zero: "d < 10 \<Longrightarrow> digit d = CHR ''0'' \<longleftrightarrow> d = 0"
proof
  assume "d < 10" and "digit d = CHR ''0''"
  then have "(of_char (digit d) :: nat) = of_char CHR ''0''" by simp
  with \<open>d < 10\<close> show "d = 0" by (simp add: digit_def)
next
  assume "d = 0"
  then show "digit d = CHR ''0''" by (simp add: digit_def) code_simp
qed

lemma three_digits: "10 * (10 * (n div 100) + n div 10 mod 10) + n mod 10 = (n::nat)"
proof -
  have "n div 100 = n div 10 div 10"
    by (simp add: div_mult2_eq)
  then have "10 * (n div 100) + n div 10 mod 10 = n div 10"
    by simp
  then show ?thesis
    by simp
qed

lemma parse_octet_decimal:
  assumes "n < 256"
  shows "parse_octet (decimal n) = Some (of_nat n)"
proof -
  consider "n < 10" | "10 \<le> n" "n < 100" | "100 \<le> n"
    by linarith
  then show ?thesis
  proof cases
    case 1
    then show ?thesis
      using assms by (simp add: decimal_def parse_octet_def digit_value_digit)
  next
    case 2
    then have "n div 10 < 10" "n mod 10 < 10" "n div 10 \<noteq> 0"
      by simp_all
    then show ?thesis
      using 2 assms
      by (simp add: decimal_def parse_octet_def digit_value_digit digit_is_zero)
  next
    case 3
    then have "n div 100 < 10" "n div 10 mod 10 < 10" "n mod 10 < 10" "n div 100 \<noteq> 0"
      using assms by simp_all
    moreover have "10 * (10 * (n div 100) + n div 10 mod 10) + n mod 10 = n"
      by (rule three_digits)
    ultimately show ?thesis
      using 3 assms
      by (simp add: decimal_def parse_octet_def digit_value_digit digit_is_zero)
  qed
qed

lemma parse_octet_decimal_unat: "parse_octet (decimal (unat x)) = Some x"
proof -
  have "unat x < 256"
    using unsigned_less [of x, where ?'a = nat] by simp
  then show ?thesis
    by (simp add: parse_octet_decimal)
qed

lemma decimal_no_dot: "n < 1000 \<Longrightarrow> CHR ''.'' \<notin> set (decimal n)"
proof -
  assume "n < 1000"
  then have "n div 100 < 10" "n div 10 mod 10 < 10" "n mod 10 < 10"
    by simp_all
  then show ?thesis
    using digit_not_dot [of "n div 100"] digit_not_dot [of "n div 10 mod 10"]
      digit_not_dot [of "n mod 10"] digit_not_dot [of "n div 10"] digit_not_dot [of n]
    by (auto simp: decimal_def)
qed

lemma split_dots_single: "CHR ''.'' \<notin> set w \<Longrightarrow> split_dots w = [w]"
  by (induction w) auto

lemma split_dots_append:
  "CHR ''.'' \<notin> set w \<Longrightarrow> split_dots (w @ CHR ''.'' # rest) = w # split_dots rest"
  by (induction w) auto

lemma split_dots_dotted_decimal:
  "split_dots (dotted_decimal (In_addr a b c d)) =
     [decimal (unat a), decimal (unat b), decimal (unat c), decimal (unat d)]"
proof -
  have bound: "unat x < 1000" for x :: "8 word"
    using unsigned_less [of x, where ?'a = nat] by simp
  have nd: "CHR ''.'' \<notin> set (decimal (unat x))" for x :: "8 word"
    by (rule decimal_no_dot [OF bound])
  show ?thesis
    by (simp add: split_dots_append [OF nd] split_dots_single [OF nd])
qed

lemma parse_dotted_decimal_inverse: "parse_dotted_decimal (dotted_decimal a) = Some a"
proof (cases a)
  case (In_addr a b c d)
  show ?thesis
    unfolding In_addr parse_dotted_decimal_def split_dots_dotted_decimal
    by (simp add: parse_octet_decimal_unat)
qed

lemma parse_ipv4_inverse: "parse_ipv4 (dotted_decimal a) = Some (address_value a)"
  by (simp add: parse_ipv4_def parse_dotted_decimal_inverse)

subsection \<open>JavaScript strings of ASCII texts\<close>

lemma utf8_replace_plain: "plain s \<Longrightarrow> utf8_replace s = s"
proof (induction s)
  case Nil
  then show ?case by simp
next
  case (Cons b bs)
  then have "byte_in 0x00 0x7F b" and "plain bs"
    by (simp_all add: plain_def byte_in_def)
  with Cons.IH show ?case
    by simp
qed

lemma takeWhile_plain: "plain s \<Longrightarrow> takeWhile (\<lambda>c. c \<noteq> CHR 0x00) s = s"
proof -
  assume "plain s"
  then have "\<forall>c\<in>set s. c \<noteq> CHR 0x00"
    by (auto simp: plain_def list_all_iff byte_in_def)
  then show ?thesis
    by (simp add: takeWhile_eq_all_conv)
qed

lemma String_New_plain: "plain s \<Longrightarrow> String_New s = s"
  by (simp add: String_New_def takeWhile_plain utf8_replace_plain)

lemma plain_keys: "plain ''name''" "plain ''address''" "plain ''broadcast''"
  by (simp_all add: plain_def byte_in_def)

lemma String_New_keys:
  "String_New ''name'' = ''name''" "String_New ''address'' = ''address''"
  "String_New ''broadcast'' = ''broadcast''"
  by (simp_all add: String_New_plain plain_keys)

lemma plain_digit: "d < 10 \<Longrightarrow> byte_in 1 127 (digit d)"
  by (simp add: byte_in_def digit_def)

lemma plain_decimal: "n < 1000 \<Longrightarrow> plain (decimal n)"
proof -
  assume "n < 1000"
  then have "n div 100 < 10" "n div 10 mod 10 < 10" "n mod 10 < 10"
    by simp_all
  then show ?thesis
    using plain_digit [of "n div 100"] plain_digit [of "n div 10 mod 10"]
      plain_digit [of "n mod 10"] plain_digit [of "n div 10"] plain_digit [of n]
    by (auto simp: decimal_def plain_def)
qed

lemma plain_append: "plain (u @ v) \<longleftrightarrow> plain u \<and> plain v"
  by (simp add: plain_def)

lemma plain_dotted_decimal: "plain (dotted_decimal a)"
proof (cases a)
  case (In_addr a b c d)
  have bound: "unat x < 1000" for x :: "8 word"
    using unsigned_less [of x, where ?'a = nat] by simp
  have "plain (decimal (unat x))" for x :: "8 word"
    by (rule plain_decimal [OF bound])
  moreover have "plain ''.''"
    by (simp add: plain_def byte_in_def)
  ultimately show ?thesis
    unfolding In_addr dotted_decimal.simps by (simp only: plain_append simp_thms)
qed

lemma String_New_dotted_decimal: "String_New (dotted_decimal a) = dotted_decimal a"
  by (rule String_New_plain [OF plain_dotted_decimal])

subsection \<open>One step of the loop\<close>

lemma enumerate_null_addr:
  "ifa_addr ifa = None \<Longrightarrow> enumerate_entries (ifa # rest) out index = Undefined"
  by (simp add: family_check_def)

lemma enumerate_skip:
  "ifa_addr ifa = Some a \<Longrightarrow> sa_family a \<noteq> AF_INET \<Longrightarrow>
   enumerate_entries (ifa # rest) out index = enumerate_entries rest out index"
  by (simp add: family_check_def)

lemma enumerate_null_broadaddr:
  "ifa_addr ifa = Some a \<Longrightarrow> sa_family a = AF_INET \<Longrightarrow> ifa_broadaddr ifa = None \<Longrightarrow>
   enumerate_entries (ifa # rest) out index = Undefined"
  by (simp add: family_check_def inet_ntop4_fits)

lemma enumerate_emit:
  "ifa_addr ifa = Some a \<Longrightarrow> sa_family a = AF_INET \<Longrightarrow> ifa_broadaddr ifa = Some b \<Longrightarrow>
   enumerate_entries (ifa # rest) out index =
     enumerate_entries rest (array_set out index (record_of ifa)) (Suc index)"
  by (simp add: family_check_def inet_ntop4_fits record_of_def Object_New_def
      String_New_keys String_New_dotted_decimal)

lemma array_set_end: "array_set (map Some rs) (length rs) obj = map Some (rs @ [obj])"
  by (simp add: array_set_def)

subsection \<open>The whole loop\<close>

text \<open>
  Started with an array without holes and with \<^verbatim>\<open>index\<close> at its end, the loop appends
  the records of the IPv4 entries, in order.
\<close>

lemma enumerate_entries_contract:
  "os_contract es \<Longrightarrow>
   enumerate_entries es (map Some rs) (length rs) =
     Returns (map Some (rs @ map record_of (filter is_ipv4 es)),
              length rs + length (filter is_ipv4 es))"
proof (induction es arbitrary: rs)
  case Nil
  then show ?case by simp
next
  case (Cons e es)
  from Cons.prems have rd: "readable e" and rest: "os_contract es"
    by (simp_all add: os_contract_def)
  from rd obtain a where a: "ifa_addr e = Some a"
    by (auto simp: readable_def)
  show ?case
  proof (cases "sa_family a = AF_INET")
    case False
    with a have "\<not> is_ipv4 e" by (simp add: is_ipv4_def)
    with a False Cons.IH [OF rest, of rs] show ?thesis
      by (simp add: enumerate_skip del: enumerate_entries.simps)
  next
    case True
    with a have v4: "is_ipv4 e" by (simp add: is_ipv4_def)
    with rd obtain b where b: "ifa_broadaddr e = Some b"
      by (auto simp: readable_def)
    have "enumerate_entries (e # es) (map Some rs) (length rs) =
          enumerate_entries es (map Some (rs @ [record_of e])) (length (rs @ [record_of e]))"
      using a True b by (simp add: enumerate_emit array_set_end del: enumerate_entries.simps)
    also have "\<dots> = Returns (map Some ((rs @ [record_of e]) @ map record_of (filter is_ipv4 es)),
                 length (rs @ [record_of e]) + length (filter is_ipv4 es))"
      by (rule Cons.IH [OF rest])
    finally show ?thesis
      using v4 by simp
  qed
qed

text \<open>On any other list the loop runs into a null pointer.\<close>

lemma enumerate_entries_undefined:
  "\<not> os_contract es \<Longrightarrow> enumerate_entries es out index = Undefined"
proof (induction es arbitrary: out index)
  case Nil
  then show ?case by (simp add: os_contract_def)
next
  case (Cons e es)
  show ?case
  proof (cases "ifa_addr e")
    case None
    then show ?thesis by (rule enumerate_null_addr)
  next
    case (Some a)
    show ?thesis
    proof (cases "sa_family a = AF_INET")
      case False
      with Some have "readable e" by (simp add: readable_def is_ipv4_def)
      with Cons.prems have "\<not> os_contract es" by (simp add: os_contract_def)
      with Some False Cons.IH show ?thesis
        by (simp add: enumerate_skip del: enumerate_entries.simps)
    next
      case True
      show ?thesis
      proof (cases "ifa_broadaddr e")
        case None
        with Some True show ?thesis by (rule enumerate_null_broadaddr)
      next
        case b: (Some b)
        with Some have "readable e" by (simp add: readable_def)
        with Cons.prems have "\<not> os_contract es" by (simp add: os_contract_def)
        with Some True b Cons.IH show ?thesis
          by (simp add: enumerate_emit del: enumerate_entries.simps)
      qed
    qed
  qed
qed

subsection \<open>The call\<close>

lemma ListInterfaces_Success:
  "os_contract es \<Longrightarrow>
   ListInterfaces (Success es) =
     Returns \<lparr>returned = map (Some \<circ> record_of) (filter is_ipv4 es), thrown = [],
              freed = [es]\<rparr>"
  using enumerate_entries_contract [of es "[]"]
  by (simp add: ListInterfaces_def Array_New_def)

lemma ListInterfaces_Success_undefined:
  "\<not> os_contract es \<Longrightarrow> ListInterfaces (Success es) = Undefined"
  by (simp add: ListInterfaces_def enumerate_entries_undefined)

lemma ListInterfaces_Failure_null:
  "ListInterfaces Failure_null =
     Returns \<lparr>returned = [],
              thrown = [''Error occurred when searching for network interfaces''],
              freed = [[]]\<rparr>"
  by (simp add: ListInterfaces_def Array_New_def)


subsection \<open>Auxiliary facts\<close>

lemma nth_filter_position:
  assumes "i < length xs" and "P (xs ! i)"
  shows "length (filter P (take i xs)) < length (filter P xs) \<and>
         filter P xs ! length (filter P (take i xs)) = xs ! i"
proof -
  define before where "before = filter P (take i xs)"
  define after where "after = filter P (drop (Suc i) xs)"
  have "xs = take i xs @ xs ! i # drop (Suc i) xs"
    using assms(1) by (rule id_take_nth_drop)
  then have "filter P xs = filter P (take i xs @ xs ! i # drop (Suc i) xs)"
    by simp
  also have "\<dots> = before @ xs ! i # after"
    using assms(2) by (simp add: before_def after_def)
  finally have "length before < length (filter P xs) \<and> filter P xs ! length before = xs ! i"
    by simp
  then show ?thesis
    by (simp add: before_def)
qed

lemma ipv4_entry_slots:
  assumes "os_contract es" and "i < length (filter is_ipv4 es)"
  shows "\<exists>a b. ifa_addr (filter is_ipv4 es ! i) = Some a \<and>
               ifa_broadaddr (filter is_ipv4 es ! i) = Some b"
proof -
  let ?e = "filter is_ipv4 es ! i"
  from assms(2) have "?e \<in> set (filter is_ipv4 es)"
    by (rule nth_mem)
  then have "?e \<in> set es" and v4: "is_ipv4 ?e"
    by simp_all
  with assms(1) have "readable ?e"
    by (simp add: os_contract_def list_all_iff)
  with v4 show ?thesis
    by (auto simp: readable_def)
qed

lemma obj_Get_record_of:
  "obj_Get (record_of e) ''name'' = Some (String_New (ifa_name e))"
  "obj_Get (record_of e) ''address'' = Some (dotted_decimal (sin_addr (the (ifa_addr e))))"
  "obj_Get (record_of e) ''broadcast'' = Some (dotted_decimal (sin_addr (the (ifa_broadaddr e))))"
  by (simp_all add: obj_Get_def record_of_def)

lemma is_ipv4_with_flags: "filter is_ipv4 (with_flags f es) = with_flags f (filter is_ipv4 es)"
  by (induction es) (simp_all add: with_flags_def is_ipv4_def)

lemma record_of_with_flags: "map record_of (with_flags f es) = map record_of es"
  by (simp add: with_flags_def record_of_def)

lemma os_contract_with_flags: "os_contract (with_flags f es) = os_contract es"
  by (induction es) (simp_all add: with_flags_def os_contract_def readable_def is_ipv4_def)

lemma filter_position_mono:
  assumes "i < j" and "j < length xs" and "P (xs ! i)"
  shows "length (filter P (take i xs)) < length (filter P (take j xs))"
proof -
  have "i < length (take j xs)" and "P (take j xs ! i)"
    using assms by simp_all
  then have "length (filter P (take i (take j xs))) < length (filter P (take j xs))"
    using nth_filter_position [of i "take j xs" P] by simp
  moreover have "take i (take j xs) = take i xs"
    using assms(1) by (simp add: min_def)
  ultimately show ?thesis
    by simp
qed

lemma no_ipv4_contract:
  assumes "filter is_ipv4 es = []" and "\<forall>e\<in>set es. ifa_addr e \<noteq> None"
  shows "os_contract es"
proof -
  have "readable e" if "e \<in> set es" for e
    using assms that by (auto simp: readable_def filter_empty_conv)
  then show ?thesis
    by (simp add: os_contract_def list_all_iff)
qed

lemma returned_with_flags:
  "map_exec returned (ListInterfaces (Success (with_flags f es))) =
   map_exec returned (ListInterfaces (Success es))"
proof (cases "os_contract es")
  case True
  then have "os_contract (with_flags f es)"
    by (simp add: os_contract_with_flags)
  then have "map_exec returned (ListInterfaces (Success (with_flags f es))) =
      Returns (map (Some \<circ> record_of) (filter is_ipv4 (with_flags f es)))"
    by (simp add: ListInterfaces_Success)
  also have "map record_of (filter is_ipv4 (with_flags f es)) = map record_of (filter is_ipv4 es)"
    by (simp add: is_ipv4_with_flags record_of_with_flags)
  then have "map (Some \<circ> record_of) (filter is_ipv4 (with_flags f es)) =
      map (Some \<circ> record_of) (filter is_ipv4 es)"
    by (simp flip: map_map)
  finally show ?thesis
    using True by (simp add: ListInterfaces_Success)
next
  case False
  then have "\<not> os_contract (with_flags f es)"
    by (simp add: os_contract_with_flags)
  with False show ?thesis
    by (simp add: ListInterfaces_Success_undefined)
qed

lemma sample_families:
  "is_ipv4 lo" "is_ipv4 eth0" "is_ipv4 ppp0" "\<not> is_ipv4 eth0_v6" "\<not> is_ipv4 tun0"
  "is_ipv4 wg0" "is_ipv4 odd"
  by (simp_all add: is_ipv4_def lo_def eth0_def ppp0_def eth0_v6_def tun0_def wg0_def odd_def
      AF_INET_def)

lemma sample_readable:
  "readable lo" "readable eth0" "readable ppp0" "readable eth0_v6" "\<not> readable tun0"
  "\<not> readable wg0" "readable odd"
  by (simp_all add: readable_def is_ipv4_def lo_def eth0_def ppp0_def eth0_v6_def tun0_def
      wg0_def odd_def AF_INET_def)

lemma record_of_lo:
  "record_of lo =
     [(''name'', ''lo''), (''address'', ''127.0.0.1''), (''broadcast'', ''127.255.255.255'')]"
  by code_simp

lemma record_of_eth0:
  "record_of eth0 =
     [(''name'', ''eth0''), (''address'', ''192.168.1.10''), (''broadcast'', ''192.168.1.255'')]"
  by code_simp

lemma record_of_ppp0:
  "record_of ppp0 =
     [(''name'', ''ppp0''), (''address'', ''10.0.0.2''), (''broadcast'', ''10.0.0.1'')]"
  by code_simp

lemma record_of_odd:
  "record_of odd =
     [(''name'', [CHR 0x69, CHR 0x66, CHR 0xEF, CHR 0xBF, CHR 0xBD, CHR 0x30]),
      (''address'', ''10.0.0.9''), (''broadcast'', ''10.0.0.255'')]"
  by code_simp

text \<open>The scenarios of the specification: a single loopback entry; an interface with an
  IPv4 and an IPv6 entry; two entries of equal name.\<close>

lemma scenario_loopback:
  "ListInterfaces (Success [lo]) =
     Returns \<lparr>returned =
                [Some [(''name'', ''lo''), (''address'', ''127.0.0.1''),
                       (''broadcast'', ''127.255.255.255'')]],
              thrown = [], freed = [[lo]]\<rparr>"
  using ListInterfaces_Success [of "[lo]"]
  by (simp add: os_contract_def sample_readable sample_families record_of_lo)

lemma scenario_two_families:
  "ListInterfaces (Success [eth0, eth0_v6]) =
     Returns \<lparr>returned =
                [Some [(''name'', ''eth0''), (''address'', ''192.168.1.10''),
                       (''broadcast'', ''192.168.1.255'')]],
              thrown = [], freed = [[eth0, eth0_v6]]\<rparr>"
  using ListInterfaces_Success [of "[eth0, eth0_v6]"]
  by (simp add: os_contract_def sample_readable sample_families record_of_eth0)

lemma scenario_equal_names:
  "map_exec returned (ListInterfaces (Success [eth0, eth0])) =
     Returns [Some [(''name'', ''eth0''), (''address'', ''192.168.1.10''),
                    (''broadcast'', ''192.168.1.255'')],
              Some [(''name'', ''eth0''), (''address'', ''192.168.1.10''),
                    (''broadcast'', ''192.168.1.255'')]]"
  using ListInterfaces_Success [of "[eth0, eth0]"]
  by (simp add: os_contract_def sample_readable sample_families record_of_eth0)

subsection \<open>The claims\<close>

text \<open>
  Claim C1, on the code. When \<^verbatim>\<open>getifaddrs\<close> fails and has stored nothing through its
  argument, the call does not stop at the exception: there is no \<^verbatim>\<open>return\<close> after
  \<^verbatim>\<open>ThrowAsJavaScriptException\<close>, the loop of line 17 reads the pointer
  \<^verbatim>\<open>interfaces\<close> that was never written, and the call has no defined outcome. (With a C
  library that stores a null pointer before it fails the call does end with the one
  exception and an empty array, see \<open>ListInterfaces_Failure_null\<close>.)
\<close>

theorem failed_query_reads_unset_pointer:
  "ListInterfaces Failure_untouched = Undefined"
  by (simp add: ListInterfaces_def)

text \<open>
  Claim C2, on the code. \<^verbatim>\<open>freeifaddrs(interfaces)\<close> in line 49 is not guarded by the
  success of the query. After a failed query that stored a null pointer it is called once,
  with that null pointer, although no list was acquired; after a failed query that stored
  nothing it would be called with the unwritten pointer, and the call has no defined
  outcome.
\<close>

theorem freeifaddrs_not_guarded:
  "map_exec freed (ListInterfaces Failure_null) = Returns [[]] \<and>
   map_exec freed (ListInterfaces Failure_untouched) = Undefined"
  by (simp add: ListInterfaces_def Array_New_def)

text \<open>
  Claim C3, amended. On a list of entries that all have an address, and a broadcast slot where they
  are IPv4 entries, the call returns, and the returned array holds, as a multiset, exactly
  one record for every IPv4 entry of the list and nothing else: entries of other families
  add nothing, and equal or equally named IPv4 entries are counted as often as they occur.
  Entry by entry: the IPv4 entry at position \<open>i\<close> of the list has its record at the
  position that counts the IPv4 entries before it.
\<close>

theorem one_record_per_ipv4_entry:
  assumes "os_contract es"
  shows "\<exists>r. ListInterfaces (Success es) = Returns r \<and>
             mset (returned r) = image_mset (Some \<circ> record_of) (filter_mset is_ipv4 (mset es)) \<and>
             length (returned r) = length (filter is_ipv4 es) \<and>
             (\<forall>i<length es. is_ipv4 (es ! i) \<longrightarrow>
                length (filter is_ipv4 (take i es)) < length (returned r) \<and>
                returned r ! length (filter is_ipv4 (take i es)) = Some (record_of (es ! i)))"
proof -
  let ?r = "\<lparr>returned = map (Some \<circ> record_of) (filter is_ipv4 es), thrown = [], freed = [es]\<rparr>"
  have "ListInterfaces (Success es) = Returns ?r"
    using assms by (rule ListInterfaces_Success)
  moreover have "mset (returned ?r) =
      image_mset (Some \<circ> record_of) (filter_mset is_ipv4 (mset es))"
    by simp
  moreover have "length (returned ?r) = length (filter is_ipv4 es)"
    by simp
  moreover have "\<forall>i<length es. is_ipv4 (es ! i) \<longrightarrow>
                length (filter is_ipv4 (take i es)) < length (returned ?r) \<and>
                returned ?r ! length (filter is_ipv4 (take i es)) = Some (record_of (es ! i))"
    using nth_filter_position [of _ es is_ipv4] by simp
  ultimately show ?thesis
    by blast
qed

text \<open>
  Claim C5, amended. On a list of entries that all have an address, and a broadcast slot
  where they are IPv4 entries, the returned array is the list of the records of the IPv4
  entries in the order of the list of the operating system: of two IPv4 entries, the
  record of the earlier one comes first.
\<close>

theorem output_is_ipv4_subsequence:
  assumes "os_contract es"
  shows "\<exists>r. ListInterfaces (Success es) = Returns r \<and>
             returned r = map (Some \<circ> record_of) (filter is_ipv4 es) \<and>
             (\<forall>i j. i < j \<longrightarrow> j < length es \<longrightarrow> is_ipv4 (es ! i) \<longrightarrow> is_ipv4 (es ! j) \<longrightarrow>
                (\<exists>p q. p < q \<and> q < length (returned r) \<and>
                        returned r ! p = Some (record_of (es ! i)) \<and>
                        returned r ! q = Some (record_of (es ! j))))"
proof -
  let ?v4 = "filter is_ipv4 es"
  let ?r = "\<lparr>returned = map (Some \<circ> record_of) ?v4, thrown = [], freed = [es]\<rparr>"
  have call: "ListInterfaces (Success es) = Returns ?r"
    using assms by (rule ListInterfaces_Success)
  have order: "\<exists>p q. p < q \<and> q < length (returned ?r) \<and>
                 returned ?r ! p = Some (record_of (es ! i)) \<and>
                 returned ?r ! q = Some (record_of (es ! j))"
    if "i < j" "j < length es" "is_ipv4 (es ! i)" "is_ipv4 (es ! j)" for i j
  proof -
    let ?p = "length (filter is_ipv4 (take i es))"
    let ?q = "length (filter is_ipv4 (take j es))"
    from that have i: "i < length es"
      by simp
    have "?p < ?q"
      using that(1,2,3) by (rule filter_position_mono)
    moreover from nth_filter_position [of j es is_ipv4] that(2,4)
    have q: "?q < length ?v4" "?v4 ! ?q = es ! j"
      by simp_all
    moreover from nth_filter_position [of i es is_ipv4] i that(3)
    have p: "?p < length ?v4" "?v4 ! ?p = es ! i"
      by simp_all
    ultimately have "?p < ?q \<and> ?q < length (returned ?r) \<and>
        returned ?r ! ?p = Some (record_of (es ! i)) \<and>
        returned ?r ! ?q = Some (record_of (es ! j))"
      by simp
    then show ?thesis
      by blast
  qed
  have "returned ?r = map (Some \<circ> record_of) ?v4"
    by simp
  with call order show ?thesis
    by blast
qed

text \<open>
  Claim C4. For every record of the returned array, the \<open>address\<close> and
  \<open>broadcast\<close> properties are dotted-decimal texts, and reading them back gives the four
  bytes, and so the 32-bit value, that the entry holds in its address and in its broadcast
  slot.
\<close>

theorem address_text_round_trip:
  assumes "os_contract es"
  shows "\<exists>r. ListInterfaces (Success es) = Returns r \<and>
             length (returned r) = length (filter is_ipv4 es) \<and>
             (\<forall>i<length (returned r). \<exists>obj a b address broadcast.
                returned r ! i = Some obj \<and>
                ifa_addr (filter is_ipv4 es ! i) = Some a \<and>
                ifa_broadaddr (filter is_ipv4 es ! i) = Some b \<and>
                obj_Get obj ''address'' = Some address \<and>
                obj_Get obj ''broadcast'' = Some broadcast \<and>
                parse_dotted_decimal address = Some (sin_addr a) \<and>
                parse_dotted_decimal broadcast = Some (sin_addr b) \<and>
                parse_ipv4 address = Some (address_value (sin_addr a)) \<and>
                parse_ipv4 broadcast = Some (address_value (sin_addr b)))"
proof -
  let ?v4 = "filter is_ipv4 es"
  let ?r = "\<lparr>returned = map (Some \<circ> record_of) ?v4, thrown = [], freed = [es]\<rparr>"
  have call: "ListInterfaces (Success es) = Returns ?r"
    using assms by (rule ListInterfaces_Success)
  have each: "\<exists>obj a b address broadcast.
                returned ?r ! i = Some obj \<and>
                ifa_addr (?v4 ! i) = Some a \<and>
                ifa_broadaddr (?v4 ! i) = Some b \<and>
                obj_Get obj ''address'' = Some address \<and>
                obj_Get obj ''broadcast'' = Some broadcast \<and>
                parse_dotted_decimal address = Some (sin_addr a) \<and>
                parse_dotted_decimal broadcast = Some (sin_addr b) \<and>
                parse_ipv4 address = Some (address_value (sin_addr a)) \<and>
                parse_ipv4 broadcast = Some (address_value (sin_addr b))"
    if "i < length (returned ?r)" for i
  proof -
    from that have i: "i < length ?v4" by simp
    from ipv4_entry_slots [OF assms i] obtain a b
      where a: "ifa_addr (?v4 ! i) = Some a" and b: "ifa_broadaddr (?v4 ! i) = Some b"
      by blast
    have "returned ?r ! i = Some (record_of (?v4 ! i))"
      using i by simp
    moreover have "obj_Get (record_of (?v4 ! i)) ''address'' = Some (dotted_decimal (sin_addr a))"
      using a by (simp add: obj_Get_record_of)
    moreover have "obj_Get (record_of (?v4 ! i)) ''broadcast'' = Some (dotted_decimal (sin_addr b))"
      using b by (simp add: obj_Get_record_of)
    ultimately show ?thesis
      using a b parse_dotted_decimal_inverse parse_ipv4_inverse by blast
  qed
  have "length (returned ?r) = length ?v4"
    by simp
  with call each show ?thesis
    by blast
qed

text \<open>
  Claim C6, amended. When the query succeeds, no entry of the list is an IPv4 entry and
  every entry has an address (the empty list is the special case), the call returns an
  empty array and throws nothing. This outcome differs from that of a failed query.
\<close>

theorem no_ipv4_entries_is_success:
  assumes "filter is_ipv4 es = []" and "\<forall>e\<in>set es. ifa_addr e \<noteq> None"
  shows "ListInterfaces (Success es) = Returns \<lparr>returned = [], thrown = [], freed = [es]\<rparr> \<and>
         ListInterfaces (Success es) \<noteq> ListInterfaces Failure_null \<and>
         ListInterfaces (Success es) \<noteq> ListInterfaces Failure_untouched"
proof -
  have c: "os_contract es"
    using assms by (rule no_ipv4_contract)
  have ok: "ListInterfaces (Success es) = Returns \<lparr>returned = [], thrown = [], freed = [es]\<rparr>"
    using ListInterfaces_Success [OF c] assms(1) by simp
  moreover have "ListInterfaces (Success es) \<noteq> ListInterfaces Failure_null"
    unfolding ok ListInterfaces_Failure_null by simp
  moreover have "ListInterfaces (Success es) \<noteq> ListInterfaces Failure_untouched"
    unfolding ok by (simp add: ListInterfaces_def)
  ultimately show ?thesis
    by simp
qed

text \<open>
  Claim C7, amended. Every element of the returned array is an object with exactly the
  three properties \<open>name\<close>, \<open>address\<close> and \<open>broadcast\<close>, in this order. Its
  \<open>name\<close> is the JavaScript string that \<^verbatim>\<open>Napi::String::New\<close> makes of the interface
  name of the IPv4 entry it was made from: that name itself when it is an ASCII text,
  and otherwise its UTF-8 reading, with U+FFFD where the bytes are not UTF-8.
\<close>

theorem records_have_three_fields:
  assumes "os_contract es"
  shows "\<exists>r. ListInterfaces (Success es) = Returns r \<and>
             length (returned r) = length (filter is_ipv4 es) \<and>
             (\<forall>i<length (returned r). \<exists>name address broadcast.
                returned r ! i =
                  Some [(''name'', name), (''address'', address), (''broadcast'', broadcast)] \<and>
                name = String_New (ifa_name (filter is_ipv4 es ! i)) \<and>
                (plain (ifa_name (filter is_ipv4 es ! i)) \<longrightarrow>
                   name = ifa_name (filter is_ipv4 es ! i)))"
proof -
  let ?v4 = "filter is_ipv4 es"
  let ?r = "\<lparr>returned = map (Some \<circ> record_of) ?v4, thrown = [], freed = [es]\<rparr>"
  have "ListInterfaces (Success es) = Returns ?r"
    using assms by (rule ListInterfaces_Success)
  moreover have "length (returned ?r) = length ?v4"
    by simp
  moreover have "\<forall>i<length (returned ?r). \<exists>name address broadcast.
      returned ?r ! i =
        Some [(''name'', name), (''address'', address), (''broadcast'', broadcast)] \<and>
      name = String_New (ifa_name (?v4 ! i)) \<and>
      (plain (ifa_name (?v4 ! i)) \<longrightarrow> name = ifa_name (?v4 ! i))"
    by (simp add: record_of_def String_New_plain)
  ultimately show ?thesis
    by blast
qed

text \<open>
  Claim C9. The family check of an entry is defined exactly when the entry's address
  pointer is not null, so it is defined on all entries of a list only if every entry has an
  address; and a list with an entry whose address pointer is null gives the call no defined
  outcome.
\<close>

theorem null_address_is_undefined:
  "((\<forall>e\<in>set es. family_check e \<noteq> Undefined) \<longleftrightarrow> (\<forall>e\<in>set es. ifa_addr e \<noteq> None)) \<and>
   ((\<exists>e\<in>set es. ifa_addr e = None) \<longrightarrow> ListInterfaces (Success es) = Undefined)"
proof
  have "family_check e \<noteq> Undefined \<longleftrightarrow> ifa_addr e \<noteq> None" for e
    by (simp add: family_check_def split: option.split)
  then show "(\<forall>e\<in>set es. family_check e \<noteq> Undefined) \<longleftrightarrow> (\<forall>e\<in>set es. ifa_addr e \<noteq> None)"
    by simp
next
  show "(\<exists>e\<in>set es. ifa_addr e = None) \<longrightarrow> ListInterfaces (Success es) = Undefined"
  proof
    assume "\<exists>e\<in>set es. ifa_addr e = None"
    then have "\<not> os_contract es"
      by (auto simp: os_contract_def list_all_iff readable_def)
    then show "ListInterfaces (Success es) = Undefined"
      by (rule ListInterfaces_Success_undefined)
  qed
qed

text \<open>
  Claim C10, amended. The interface flags are never looked at: with any other flags on the
  entries the returned array is the same, on every list. On a list of entries that all
  have an address, and a broadcast slot where they are IPv4 entries, every IPv4 entry
  gives a record, and the \<open>broadcast\<close> property of that record is the text of the four
  bytes in the entry's broadcast slot, whatever that slot stands for and whatever family
  is written in it.
\<close>

theorem no_flag_filtering:
  "map_exec returned (ListInterfaces (Success (with_flags f es))) =
     map_exec returned (ListInterfaces (Success es)) \<and>
   (os_contract es \<longrightarrow>
      (\<exists>r. ListInterfaces (Success es) = Returns r \<and>
           length (returned r) = length (filter is_ipv4 es) \<and>
           (\<forall>i<length (returned r). \<exists>obj b.
              returned r ! i = Some obj \<and>
              ifa_broadaddr (filter is_ipv4 es ! i) = Some b \<and>
              obj_Get obj ''broadcast'' = Some (dotted_decimal (sin_addr b)))))"
proof (intro conjI impI)
  show "map_exec returned (ListInterfaces (Success (with_flags f es))) =
     map_exec returned (ListInterfaces (Success es))"
    by (rule returned_with_flags)
next
  assume contract: "os_contract es"
  let ?v4 = "filter is_ipv4 es"
  let ?r = "\<lparr>returned = map (Some \<circ> record_of) ?v4, thrown = [], freed = [es]\<rparr>"
  have call: "ListInterfaces (Success es) = Returns ?r"
    using contract by (rule ListInterfaces_Success)
  have len: "length (returned ?r) = length ?v4"
    by simp
  have each: "\<exists>obj b. returned ?r ! i = Some obj \<and> ifa_broadaddr (?v4 ! i) = Some b \<and>
                obj_Get obj ''broadcast'' = Some (dotted_decimal (sin_addr b))"
    if "i < length (returned ?r)" for i
  proof -
    from that have i: "i < length ?v4" by simp
    from ipv4_entry_slots [OF contract i] obtain b where b: "ifa_broadaddr (?v4 ! i) = Some b"
      by blast
    have "returned ?r ! i = Some (record_of (?v4 ! i))"
      using i by simp
    moreover have "obj_Get (record_of (?v4 ! i)) ''broadcast'' = Some (dotted_decimal (sin_addr b))"
      using b by (simp add: obj_Get_record_of)
    ultimately show ?thesis
      using b by blast
  qed
  from call len each
  show "\<exists>r. ListInterfaces (Success es) = Returns r \<and>
           length (returned r) = length (filter is_ipv4 es) \<and>
           (\<forall>i<length (returned r). \<exists>obj b.
              returned r ! i = Some obj \<and>
              ifa_broadaddr (filter is_ipv4 es ! i) = Some b \<and>
              obj_Get obj ''broadcast'' = Some (dotted_decimal (sin_addr b)))"
    by blast
qed

subsection \<open>The claims on the sample entries\<close>

theorem one_record_per_ipv4_entry_witness:
  "os_contract [eth0, eth0_v6, eth0] \<and>
   (\<exists>r. ListInterfaces (Success [eth0, eth0_v6, eth0]) = Returns r \<and>
        mset (returned r) = {#Some (record_of eth0), Some (record_of eth0)#} \<and>
        length (returned r) = 2 \<and>
        returned r ! 0 = Some (record_of eth0) \<and> returned r ! 1 = Some (record_of eth0))"
proof -
  let ?es = "[eth0, eth0_v6, eth0]"
  have h: "os_contract ?es"
    by (simp add: os_contract_def sample_readable)
  from one_record_per_ipv4_entry [OF h] obtain r where r: "ListInterfaces (Success ?es) = Returns r"
    and m: "mset (returned r) =
         image_mset (Some \<circ> record_of) (filter_mset is_ipv4 (mset ?es))"
    and len: "length (returned r) = length (filter is_ipv4 ?es)"
    and pos: "\<forall>i<length ?es. is_ipv4 (?es ! i) \<longrightarrow>
                length (filter is_ipv4 (take i ?es)) < length (returned r) \<and>
                returned r ! length (filter is_ipv4 (take i ?es)) = Some (record_of (?es ! i))"
    by blast
  have "0 < length ?es" "is_ipv4 (?es ! 0)" "2 < length ?es" "is_ipv4 (?es ! 2)"
    by (simp_all add: sample_families)
  with pos have "returned r ! length (filter is_ipv4 (take 0 ?es)) = Some (record_of (?es ! 0))"
    "returned r ! length (filter is_ipv4 (take 2 ?es)) = Some (record_of (?es ! 2))"
    by blast+
  then have "returned r ! 0 = Some (record_of eth0)" "returned r ! 1 = Some (record_of eth0)"
    by (simp_all add: sample_families)
  moreover from m len have "mset (returned r) = {#Some (record_of eth0), Some (record_of eth0)#}"
    "length (returned r) = 2"
    by (simp_all add: sample_families)
  ultimately show ?thesis
    using h r by blast
qed

theorem address_text_round_trip_witness:
  "os_contract [lo] \<and>
   (\<exists>r obj address broadcast.
      ListInterfaces (Success [lo]) = Returns r \<and> returned r ! 0 = Some obj \<and>
      obj_Get obj ''address'' = Some address \<and>
      parse_dotted_decimal address = Some (In_addr 127 0 0 1) \<and>
      parse_ipv4 address = Some (address_value (In_addr 127 0 0 1)) \<and>
      obj_Get obj ''broadcast'' = Some broadcast \<and>
      parse_dotted_decimal broadcast = Some (In_addr 127 255 255 255) \<and>
      parse_ipv4 broadcast = Some (address_value (In_addr 127 255 255 255)))"
proof -
  have h: "os_contract [lo]"
    by (simp add: os_contract_def sample_readable)
  have slots: "ifa_addr lo = Some \<lparr>sa_family = 2, sin_addr = In_addr 127 0 0 1\<rparr>"
    "ifa_broadaddr lo = Some \<lparr>sa_family = 2, sin_addr = In_addr 127 255 255 255\<rparr>"
    by (simp_all add: lo_def)
  from address_text_round_trip [OF h] obtain r where r: "ListInterfaces (Success [lo]) = Returns r"
    and len: "length (returned r) = length (filter is_ipv4 [lo])"
    and each: "\<forall>i<length (returned r). \<exists>obj a b address broadcast.
                returned r ! i = Some obj \<and>
                ifa_addr (filter is_ipv4 [lo] ! i) = Some a \<and>
                ifa_broadaddr (filter is_ipv4 [lo] ! i) = Some b \<and>
                obj_Get obj ''address'' = Some address \<and>
                obj_Get obj ''broadcast'' = Some broadcast \<and>
                parse_dotted_decimal address = Some (sin_addr a) \<and>
                parse_dotted_decimal broadcast = Some (sin_addr b) \<and>
                parse_ipv4 address = Some (address_value (sin_addr a)) \<and>
                parse_ipv4 broadcast = Some (address_value (sin_addr b))"
    by blast
  from len have "0 < length (returned r)"
    by (simp add: sample_families)
  with each have "\<exists>obj a b address broadcast.
                returned r ! 0 = Some obj \<and>
                ifa_addr (filter is_ipv4 [lo] ! 0) = Some a \<and>
                ifa_broadaddr (filter is_ipv4 [lo] ! 0) = Some b \<and>
                obj_Get obj ''address'' = Some address \<and>
                obj_Get obj ''broadcast'' = Some broadcast \<and>
                parse_dotted_decimal address = Some (sin_addr a) \<and>
                parse_dotted_decimal broadcast = Some (sin_addr b) \<and>
                parse_ipv4 address = Some (address_value (sin_addr a)) \<and>
                parse_ipv4 broadcast = Some (address_value (sin_addr b))"
    by blast
  then obtain obj address broadcast where "returned r ! 0 = Some obj"
    "obj_Get obj ''address'' = Some address"
    "obj_Get obj ''broadcast'' = Some broadcast"
    "parse_dotted_decimal address = Some (In_addr 127 0 0 1)"
    "parse_dotted_decimal broadcast = Some (In_addr 127 255 255 255)"
    "parse_ipv4 address = Some (address_value (In_addr 127 0 0 1))"
    "parse_ipv4 broadcast = Some (address_value (In_addr 127 255 255 255))"
    by (auto simp: sample_families slots)
  with h r show ?thesis
    by blast
qed

theorem output_is_ipv4_subsequence_witness:
  "os_contract [lo, eth0_v6, eth0] \<and>
   (\<exists>r p q. ListInterfaces (Success [lo, eth0_v6, eth0]) = Returns r \<and>
        returned r = [Some (record_of lo), Some (record_of eth0)] \<and>
        p < q \<and> q < length (returned r) \<and>
        returned r ! p = Some (record_of lo) \<and> returned r ! q = Some (record_of eth0))"
proof -
  let ?es = "[lo, eth0_v6, eth0]"
  have h: "os_contract ?es"
    by (simp add: os_contract_def sample_readable)
  from output_is_ipv4_subsequence [OF h] obtain r
    where r: "ListInterfaces (Success ?es) = Returns r"
      and out: "returned r = map (Some \<circ> record_of) (filter is_ipv4 ?es)"
      and order: "\<forall>i j. i < j \<longrightarrow> j < length ?es \<longrightarrow> is_ipv4 (?es ! i) \<longrightarrow> is_ipv4 (?es ! j) \<longrightarrow>
                (\<exists>p q. p < q \<and> q < length (returned r) \<and>
                        returned r ! p = Some (record_of (?es ! i)) \<and>
                        returned r ! q = Some (record_of (?es ! j)))"
    by blast
  have "(0::nat) < 2" "2 < length ?es" "is_ipv4 (?es ! 0)" "is_ipv4 (?es ! 2)"
    by (simp_all add: sample_families)
  with order have "\<exists>p q. p < q \<and> q < length (returned r) \<and>
                        returned r ! p = Some (record_of (?es ! 0)) \<and>
                        returned r ! q = Some (record_of (?es ! 2))"
    by blast
  then obtain p q where "p < q" "q < length (returned r)"
    "returned r ! p = Some (record_of lo)" "returned r ! q = Some (record_of eth0)"
    by auto
  moreover from out have "returned r = [Some (record_of lo), Some (record_of eth0)]"
    by (simp add: sample_families)
  ultimately show ?thesis
    using h r by blast
qed

theorem no_ipv4_entries_is_success_witness:
  "filter is_ipv4 [eth0_v6] = [] \<and> ifa_addr eth0_v6 \<noteq> None \<and>
   ListInterfaces (Success [eth0_v6]) =
     Returns \<lparr>returned = [], thrown = [], freed = [[eth0_v6]]\<rparr> \<and>
   ListInterfaces (Success [eth0_v6]) \<noteq> ListInterfaces Failure_null \<and>
   ListInterfaces (Success []) = Returns \<lparr>returned = [], thrown = [], freed = [[]]\<rparr> \<and>
   ListInterfaces (Success []) \<noteq> ListInterfaces Failure_null"
proof -
  have none: "filter is_ipv4 [eth0_v6] = []"
    by (simp add: sample_families)
  have addr: "ifa_addr eth0_v6 \<noteq> None"
    by (simp add: eth0_v6_def)
  then have h: "\<forall>e\<in>set [eth0_v6]. ifa_addr e \<noteq> None"
    by simp
  have none0: "filter is_ipv4 [] = []" and h0: "\<forall>e\<in>set ([] :: ifaddrs list). ifa_addr e \<noteq> None"
    by simp_all
  show ?thesis
    using none addr no_ipv4_entries_is_success [OF none h]
      no_ipv4_entries_is_success [OF none0 h0]
    by blast
qed

theorem records_have_three_fields_witness:
  "os_contract [eth0, eth0_v6] \<and> plain (ifa_name eth0) \<and>
   (\<exists>r address broadcast.
      ListInterfaces (Success [eth0, eth0_v6]) = Returns r \<and> length (returned r) = 1 \<and>
      returned r ! 0 =
        Some [(''name'', ''eth0''), (''address'', address), (''broadcast'', broadcast)])"
proof -
  let ?es = "[eth0, eth0_v6]"
  have h: "os_contract ?es"
    by (simp add: os_contract_def sample_readable)
  have name: "ifa_name eth0 = ''eth0''"
    by (simp add: eth0_def)
  have pl: "plain (ifa_name eth0)"
    by (simp add: name plain_def byte_in_def)
  from records_have_three_fields [OF h] obtain r
    where r: "ListInterfaces (Success ?es) = Returns r"
      and len: "length (returned r) = length (filter is_ipv4 ?es)"
      and each: "\<forall>i<length (returned r). \<exists>name address broadcast.
                returned r ! i =
                  Some [(''name'', name), (''address'', address), (''broadcast'', broadcast)] \<and>
                name = String_New (ifa_name (filter is_ipv4 ?es ! i)) \<and>
                (plain (ifa_name (filter is_ipv4 ?es ! i)) \<longrightarrow>
                   name = ifa_name (filter is_ipv4 ?es ! i))"
    by blast
  from len have len1: "length (returned r) = 1"
    by (simp add: sample_families)
  then have "0 < length (returned r)"
    by simp
  with each have "\<exists>name address broadcast.
                returned r ! 0 =
                  Some [(''name'', name), (''address'', address), (''broadcast'', broadcast)] \<and>
                name = String_New (ifa_name (filter is_ipv4 ?es ! 0)) \<and>
                (plain (ifa_name (filter is_ipv4 ?es ! 0)) \<longrightarrow>
                   name = ifa_name (filter is_ipv4 ?es ! 0))"
    by blast
  then have "\<exists>address broadcast.
                returned r ! 0 =
                  Some [(''name'', ''eth0''), (''address'', address), (''broadcast'', broadcast)]"
    using pl by (auto simp: sample_families name)
  with h pl r len1 show ?thesis
    by blast
qed

theorem null_address_is_undefined_witness:
  "ifa_addr lo \<noteq> None \<and> ifa_addr tun0 = None \<and>
   ListInterfaces (Success [lo, tun0]) = Undefined \<and>
   family_check lo \<noteq> Undefined \<and> family_check tun0 = Undefined"
proof -
  have slots: "ifa_addr lo \<noteq> None" "ifa_addr tun0 = None"
    by (simp_all add: lo_def tun0_def)
  then have h: "\<exists>e\<in>set [lo, tun0]. ifa_addr e = None"
    by simp
  with null_address_is_undefined [of "[lo, tun0]"]
  have "ListInterfaces (Success [lo, tun0]) = Undefined"
    by blast
  moreover from slots null_address_is_undefined [of "[lo]"]
  have "family_check lo \<noteq> Undefined"
    by simp
  moreover from h null_address_is_undefined [of "[tun0]"] slots
  have "family_check tun0 = Undefined"
    by simp
  ultimately show ?thesis
    using slots by simp
qed

theorem no_flag_filtering_witness:
  "os_contract [lo, ppp0] \<and>
   map_exec returned (ListInterfaces (Success (with_flags (\<lambda>e. 0) [lo, ppp0]))) =
     map_exec returned (ListInterfaces (Success [lo, ppp0])) \<and>
   (\<exists>r obj.
      ListInterfaces (Success [lo, ppp0]) = Returns r \<and> length (returned r) = 2 \<and>
      returned r ! 1 = Some obj \<and>
      obj_Get obj ''broadcast'' = Some (dotted_decimal (In_addr 10 0 0 1)))"
proof -
  let ?es = "[lo, ppp0]"
  have h: "os_contract ?es"
    by (simp add: os_contract_def sample_readable)
  have slot: "ifa_broadaddr ppp0 = Some \<lparr>sa_family = 2, sin_addr = In_addr 10 0 0 1\<rparr>"
    by (simp add: ppp0_def)
  from no_flag_filtering [of "\<lambda>e. 0" ?es]
  have same: "map_exec returned (ListInterfaces (Success (with_flags (\<lambda>e. 0) ?es))) =
     map_exec returned (ListInterfaces (Success ?es))"
    by blast
  from no_flag_filtering [of "\<lambda>e. 0" ?es] h obtain r
    where r: "ListInterfaces (Success ?es) = Returns r"
      and len: "length (returned r) = length (filter is_ipv4 ?es)"
      and each: "\<forall>i<length (returned r). \<exists>obj b.
              returned r ! i = Some obj \<and>
              ifa_broadaddr (filter is_ipv4 ?es ! i) = Some b \<and>
              obj_Get obj ''broadcast'' = Some (dotted_decimal (sin_addr b))"
    by blast
  from len have len2: "length (returned r) = 2"
    by (simp add: sample_families)
  then have "1 < length (returned r)"
    by simp
  with each have "\<exists>obj b. returned r ! 1 = Some obj \<and>
              ifa_broadaddr (filter is_ipv4 ?es ! 1) = Some b \<and>
              obj_Get obj ''broadcast'' = Some (dotted_decimal (sin_addr b))"
    by blast
  then obtain obj where "returned r ! 1 = Some obj"
    "obj_Get obj ''broadcast'' = Some (dotted_decimal (In_addr 10 0 0 1))"
    by (auto simp: sample_families slot)
  with h same r len2 show ?thesis
    by blast
qed

subsection \<open>Lists on which the claims as first written fail\<close>

text \<open>
  A tunnel without an address after the loopback entry, or an IPv4 entry without a
  broadcast slot: the loopback entry is an IPv4 entry, and no record is returned for it.
\<close>

theorem one_record_per_ipv4_entry_counterexample:
  "is_ipv4 lo \<and> ListInterfaces (Success [lo, tun0]) = Undefined \<and>
   ListInterfaces (Success [lo, wg0]) = Undefined"
proof -
  have "\<not> os_contract [lo, tun0]" "\<not> os_contract [lo, wg0]"
    by (simp_all add: os_contract_def sample_readable)
  then show ?thesis
    by (simp add: ListInterfaces_Success_undefined sample_families)
qed

text \<open>The list has one IPv4 entry after an entry without address; nothing is returned.\<close>

theorem output_is_ipv4_subsequence_counterexample:
  "filter is_ipv4 [tun0, eth0] = [eth0] \<and> ListInterfaces (Success [tun0, eth0]) = Undefined \<and>
   filter is_ipv4 [eth0, wg0] = [eth0, wg0] \<and> ListInterfaces (Success [eth0, wg0]) = Undefined"
proof -
  have "\<not> os_contract [tun0, eth0]" "\<not> os_contract [eth0, wg0]"
    by (simp_all add: os_contract_def sample_readable)
  then show ?thesis
    by (simp add: ListInterfaces_Success_undefined sample_families)
qed

text \<open>A successful query with no IPv4 entry, and not a successful call.\<close>

theorem no_ipv4_entries_is_success_counterexample:
  "filter is_ipv4 [tun0] = [] \<and> ListInterfaces (Success [tun0]) = Undefined \<and>
   ListInterfaces (Success [tun0]) = ListInterfaces Failure_untouched"
proof -
  have "\<not> os_contract [tun0]"
    by (simp add: os_contract_def sample_readable)
  then have "ListInterfaces (Success [tun0]) = Undefined"
    by (rule ListInterfaces_Success_undefined)
  moreover have "ListInterfaces Failure_untouched = Undefined"
    by (simp add: ListInterfaces_def)
  ultimately show ?thesis
    by (simp add: sample_families)
qed

text \<open>An interface name with a byte that is not UTF-8: the \<open>name\<close> of the record is not
  the name the operating system gave.\<close>

theorem records_have_three_fields_counterexample:
  "os_contract [odd] \<and>
   ListInterfaces (Success [odd]) =
     Returns \<lparr>returned =
                [Some [(''name'', [CHR 0x69, CHR 0x66, CHR 0xEF, CHR 0xBF, CHR 0xBD, CHR 0x30]),
                       (''address'', ''10.0.0.9''), (''broadcast'', ''10.0.0.255'')]],
              thrown = [], freed = [[odd]]\<rparr> \<and>
   [CHR 0x69, CHR 0x66, CHR 0xEF, CHR 0xBF, CHR 0xBD, CHR 0x30] \<noteq> ifa_name odd"
proof -
  have h: "os_contract [odd]"
    by (simp add: os_contract_def sample_readable)
  have "[CHR 0x69, CHR 0x66, CHR 0xEF, CHR 0xBF, CHR 0xBD, CHR 0x30] \<noteq> ifa_name odd"
    by (simp add: odd_def)
  with h ListInterfaces_Success [OF h] show ?thesis
    by (simp add: sample_families record_of_odd)
qed

text \<open>An IPv4 entry whose broadcast pointer is null: no record and no \<open>broadcast\<close> text.\<close>

theorem no_flag_filtering_counterexample:
  "is_ipv4 wg0 \<and> ifa_broadaddr wg0 = None \<and> ListInterfaces (Success [wg0]) = Undefined"
proof -
  have "\<not> os_contract [wg0]"
    by (simp add: os_contract_def sample_readable)
  then have "ListInterfaces (Success [wg0]) = Undefined"
    by (rule ListInterfaces_Success_undefined)
  moreover have "ifa_broadaddr wg0 = None"
    by (simp add: wg0_def)
  ultimately show ?thesis
    by (simp add: sample_families)
qed

end
